theory Spec2Isabelle
  imports Main
begin

section \<open>Strings\<close>

text \<open>
  Python strings are modelled as \<^typ>\<open>string\<close>. \<^verbatim>\<open>str.lower()\<close> is modelled on the ASCII
  letters; every other character is left as it is. The only use of \<^verbatim>\<open>lower()\<close> in the
  program is the comparison of its result with \<^verbatim>\<open>"quit"\<close>, and the only characters whose
  lower-case form consists of the ASCII letters \<^verbatim>\<open>q u i t\<close> alone are
  \<^verbatim>\<open>Q U I T q u i t\<close>, so the comparison is decided by the ASCII part alone.
\<close>

definition lower_char :: "char \<Rightarrow> char" where
  "lower_char c =
     (case map_of (zip ''ABCDEFGHIJKLMNOPQRSTUVWXYZ'' ''abcdefghijklmnopqrstuvwxyz'') c of
        None \<Rightarrow> c
      | Some d \<Rightarrow> d)"

definition lower :: "string \<Rightarrow> string" where
  "lower s = map lower_char s"

text \<open>
  The specification speaks of the \<^emph>\<open>trimmed\<close> input. The program has no such operation;
  \<open>spec_strip\<close> and \<open>spec_is_quit\<close> follow the specification's words (Python's
  \<^verbatim>\<open>str.strip()\<close> on ASCII white space) and exist only to be compared with the test the
  program makes.
\<close>

definition is_space :: "char \<Rightarrow> bool" where
  "is_space c = (c \<in> set [CHR '' '', CHR 0x09, CHR 0x0A, CHR 0x0B, CHR 0x0C, CHR 0x0D])"

definition spec_strip :: "string \<Rightarrow> string" where
  "spec_strip s = rev (dropWhile is_space (rev (dropWhile is_space s)))"

definition spec_is_quit :: "string \<Rightarrow> bool" where
  "spec_is_quit s = (lower (spec_strip s) = ''quit'')"

section \<open>Data model\<close>

text \<open>A history entry is the dictionary \<^verbatim>\<open>{"role": ..., "content": ...}\<close>.\<close>

record entry =
  role :: string
  content :: string

text \<open>
  One streamed snapshot (\<^verbatim>\<open>event\<close>): the program reads only \<^verbatim>\<open>event["messages"]\<close>,
  a list of message objects of the agent library (type \<open>'m\<close>).
\<close>

record 'm event =
  event_messages :: "'m list"

text \<open>
  What iterating \<^verbatim>\<open>graph.astream(...)\<close> does: it yields a snapshot and goes on, it is
  exhausted, or it raises an error \<open>'e\<close> of the agent (model or tool call). A stream is
  finite: an agent that never ends its answer is not modelled.
\<close>

datatype ('m, 'e) stream =
    Exhausted
  | Failed 'e
  | Event "'m event" "('m, 'e) stream"

text \<open>
  The exceptions of opening and reading a file. \<^verbatim>\<open>UnicodeDecodeError\<close> is what
  \<^verbatim>\<open>f.read()\<close> raises on bytes that do not decode.
\<close>

datatype os_error =
    FileNotFoundError
  | PermissionError
  | IsADirectoryError
  | UnicodeDecodeError

text \<open>
  The exceptions that can leave the program: from \<^verbatim>\<open>input\<close> at the end of input, from
  \<^verbatim>\<open>[-1]\<close>, from the agent while streaming (\<open>'e\<close>), from the tool channel at startup,
  from reading the prompt file, and the exception group in which a task group raises the
  exceptions it has collected.
\<close>

datatype 'e error =
    EOFError
  | IndexError
  | AgentError 'e
  | StartupError 'e
  | PromptFileError os_error
  | ExceptionGroup "'e error list"

text \<open>
  What the program writes to standard output: the prompt of \<^verbatim>\<open>input\<close>, a line of
  \<^verbatim>\<open>print\<close>, or a message shown by its own \<^verbatim>\<open>pretty_print()\<close>.
\<close>

datatype 'm written =
    Prompt string
  | Print string
  | PrettyPrint 'm

text \<open>
  The agent is opaque: given its checkpoint store \<open>'g\<close>, the history and the thread
  identifier, it gives a stream and its new store. It receives the history by value: the
  embedding does not model an agent library that would mutate the caller's list.
\<close>

type_synonym ('m, 'e, 'g) graph = "'g \<Rightarrow> entry list \<Rightarrow> string \<Rightarrow> ('m, 'e) stream \<times> 'g"

text \<open>
  The state of \<^verbatim>\<open>invoke_graph\<close>: the local list \<^verbatim>\<open>messages\<close>, what has been written to
  standard output, the agent's store, and the log of the histories handed to
  \<^verbatim>\<open>graph.astream\<close>, one per invocation.
\<close>

record ('m, 'g) session =
  messages :: "entry list"
  stdout :: "'m written list"
  memory :: 'g
  astream_calls :: "entry list list"

section \<open>The session loop\<close>

definition thread_id :: string where
  "thread_id = ''1''"

text \<open>\<^verbatim>\<open>xs[-1]\<close>: the last element, \<^verbatim>\<open>IndexError\<close> on the empty list.\<close>

definition index_last :: "'a list \<Rightarrow> 'e error + 'a" where
  "index_last xs = (if xs = [] then Inl IndexError else Inr (last xs))"

text \<open>
  \<^verbatim>\<open>async for event in graph.astream(...): event["messages"][-1].pretty_print()\<close>.
  The result is the exception that left the loop, if any, and standard output.
\<close>

fun async_for :: "('m, 'e) stream \<Rightarrow> 'm written list \<Rightarrow> 'e error option \<times> 'm written list" where
  "async_for Exhausted out = (None, out)"
| "async_for (Failed e) out = (Some (AgentError e), out)"
| "async_for (Event ev rest) out =
     (case index_last (event_messages ev) of
        Inl err \<Rightarrow> (Some err, out)
      | Inr m \<Rightarrow> async_for rest (out @ [PrettyPrint m]))"

text \<open>
  One non-quit turn, after the line has been read: the append, the invocation and the
  consumption of the stream.
\<close>

definition turn ::
  "('m, 'e, 'g) graph \<Rightarrow> ('m, 'g) session \<Rightarrow> string \<Rightarrow> 'e error option \<times> ('m, 'g) session" where
  "turn graph s user_input =
     (let msgs = messages s @ [\<lparr>role = ''user'', content = user_input\<rparr>];
          (str, g) = graph (memory s) msgs thread_id;
          (r, out) = async_for str (stdout s)
      in (r, \<lparr>messages = msgs, stdout = out, memory = g,
              astream_calls = astream_calls s @ [msgs]\<rparr>))"

text \<open>
  \<^verbatim>\<open>while True\<close>: standard input is the list of the lines still to be read; \<^verbatim>\<open>input\<close>
  writes its prompt and raises \<^verbatim>\<open>EOFError\<close> at the end of input. The result is the
  exception that left the loop (\<open>None\<close> after \<^verbatim>\<open>break\<close>), the final state and the
  lines left unread.
\<close>

fun while_loop ::
  "('m, 'e, 'g) graph \<Rightarrow> ('m, 'g) session \<Rightarrow> string list \<Rightarrow>
     'e error option \<times> ('m, 'g) session \<times> string list" where
  "while_loop graph s [] = (Some EOFError, s\<lparr>stdout := stdout s @ [Prompt ''User: '']\<rparr>, [])"
| "while_loop graph s (user_input # rest) =
     (let s1 = s\<lparr>stdout := stdout s @ [Prompt ''User: '']\<rparr> in
      if lower user_input = ''quit''
      then (None, s1\<lparr>stdout := stdout s1 @ [Print ''Exiting...'']\<rparr>, rest)
      else (case turn graph s1 user_input of
              (Some err, s2) \<Rightarrow> (Some err, s2, rest)
            | (None, s2) \<Rightarrow> while_loop graph s2 rest))"

definition invoke_graph ::
  "('m, 'e, 'g) graph \<Rightarrow> 'g \<Rightarrow> string list \<Rightarrow>
     'e error option \<times> ('m, 'g) session \<times> string list" where
  "invoke_graph graph g0 lines =
     while_loop graph \<lparr>messages = [], stdout = [], memory = g0, astream_calls = []\<rparr> lines"

section \<open>The session loop as a state machine\<close>

text \<open>
  The control points of \<^verbatim>\<open>invoke_graph\<close>: about to call \<^verbatim>\<open>input\<close>
  (\<open>AWAITING_INPUT\<close>), about to ask the stream for its next snapshot
  (\<open>STREAMING_RESPONSE\<close>), after \<^verbatim>\<open>break\<close> (\<open>TERMINATED\<close>), and left by an exception
  (\<open>RAISED\<close>).
\<close>

datatype 'e phase =
    AWAITING_INPUT
  | STREAMING_RESPONSE
  | TERMINATED
  | RAISED "'e error"

record ('m, 'e, 'g) machine =
  phase :: "'e phase"
  sess :: "('m, 'g) session"
  pending :: "('m, 'e) stream"
  unread :: "string list"

definition step :: "('m, 'e, 'g) graph \<Rightarrow> ('m, 'e, 'g) machine \<Rightarrow> ('m, 'e, 'g) machine" where
  "step graph c =
     (case phase c of
        AWAITING_INPUT \<Rightarrow>
          (let s1 = (sess c)\<lparr>stdout := stdout (sess c) @ [Prompt ''User: '']\<rparr> in
           case unread c of
             [] \<Rightarrow> c\<lparr>phase := RAISED EOFError, sess := s1\<rparr>
           | user_input # rest \<Rightarrow>
               if lower user_input = ''quit''
               then c\<lparr>phase := TERMINATED,
                      sess := s1\<lparr>stdout := stdout s1 @ [Print ''Exiting...'']\<rparr>,
                      unread := rest\<rparr>
               else (let msgs = messages s1 @ [\<lparr>role = ''user'', content = user_input\<rparr>];
                         (str, g) = graph (memory s1) msgs thread_id
                     in c\<lparr>phase := STREAMING_RESPONSE,
                          sess := \<lparr>messages = msgs, stdout = stdout s1, memory = g,
                                    astream_calls = astream_calls s1 @ [msgs]\<rparr>,
                          pending := str,
                          unread := rest\<rparr>))
      | STREAMING_RESPONSE \<Rightarrow>
          (case pending c of
             Exhausted \<Rightarrow> c\<lparr>phase := AWAITING_INPUT\<rparr>
           | Failed e \<Rightarrow> c\<lparr>phase := RAISED (AgentError e)\<rparr>
           | Event ev rest \<Rightarrow>
               (case index_last (event_messages ev) of
                  Inl err \<Rightarrow> c\<lparr>phase := RAISED err\<rparr>
                | Inr m \<Rightarrow>
                    c\<lparr>sess := (sess c)\<lparr>stdout := stdout (sess c) @ [PrettyPrint m]\<rparr>,
                      pending := rest\<rparr>))
      | TERMINATED \<Rightarrow> c
      | RAISED err \<Rightarrow> c)"

definition initial :: "'g \<Rightarrow> string list \<Rightarrow> ('m, 'e, 'g) machine" where
  "initial g0 lines =
     \<lparr>phase = AWAITING_INPUT,
      sess = \<lparr>messages = [], stdout = [], memory = g0, astream_calls = []\<rparr>,
      pending = Exhausted,
      unread = lines\<rparr>"

text \<open>The state of the machine after \<open>n\<close> steps of a run of \<^verbatim>\<open>invoke_graph\<close>.\<close>

definition run :: "('m, 'e, 'g) graph \<Rightarrow> 'g \<Rightarrow> string list \<Rightarrow> nat \<Rightarrow> ('m, 'e, 'g) machine" where
  "run graph g0 lines n = (step graph ^^ n) (initial g0 lines)"

text \<open>The phase in which the machine stops, for a result of the loop.\<close>

definition final_phase :: "'e error option \<Rightarrow> 'e phase" where
  "final_phase r = (case r of None \<Rightarrow> TERMINATED | Some err \<Rightarrow> RAISED err)"

text \<open>The snapshots a stream yields, in order.\<close>

fun snapshots :: "('m, 'e) stream \<Rightarrow> 'm event list" where
  "snapshots Exhausted = []"
| "snapshots (Failed e) = []"
| "snapshots (Event ev rest) = ev # snapshots rest"

subsection \<open>Example agents\<close>

text \<open>
  Three agents to run the loop on. Each starts every snapshot with a greeting followed by
  the contents of the history. \<open>echo_graph\<close> yields two snapshots, the second with a reply
  at its end; \<open>failing_graph\<close> fails after its first snapshot; \<open>empty_graph\<close> yields a
  snapshot without messages after its first.
\<close>

definition echo_graph :: "(string, string, nat) graph" where
  "echo_graph g h t =
     (Event \<lparr>event_messages = ''hello'' # map content h\<rparr>
        (Event \<lparr>event_messages = ''hello'' # map content h @ [''ok'']\<rparr> Exhausted),
      Suc g)"

definition failing_graph :: "(string, string, nat) graph" where
  "failing_graph g h t =
     (Event \<lparr>event_messages = ''hello'' # map content h\<rparr> (Failed ''timeout''), Suc g)"

definition empty_graph :: "(string, string, nat) graph" where
  "empty_graph g h t =
     (Event \<lparr>event_messages = ''hello'' # map content h\<rparr>
        (Event \<lparr>event_messages = []\<rparr> (Event \<lparr>event_messages = [''late'']\<rparr> Exhausted)),
      Suc g)"

section \<open>The system prompt\<close>

text \<open>
  The state of \<^verbatim>\<open>prompt.txt\<close> at startup: no such file, a file with its decoded text as
  stored, or a file that cannot be opened or read.
\<close>

datatype file_state =
    Absent
  | Present string
  | Unreadable os_error

text \<open>
  \<^verbatim>\<open>open(path, "r")\<close> opens in text mode with the default \<^verbatim>\<open>newline=None\<close>: Python's
  universal newlines, where \<^verbatim>\<open>f.read()\<close> returns the text with every \<^verbatim>\<open>"\r\n"\<close> and every
  other \<^verbatim>\<open>"\r"\<close> translated to \<^verbatim>\<open>"\n"\<close>.
\<close>

fun universal_newlines :: "string \<Rightarrow> string" where
  "universal_newlines [] = []"
| "universal_newlines (c # cs) =
     (if c = CHR 0x0D
      then (case cs of
              [] \<Rightarrow> [CHR 0x0A]
            | d # ds \<Rightarrow>
                if d = CHR 0x0A then CHR 0x0A # universal_newlines ds
                else CHR 0x0A # universal_newlines cs)
      else c # universal_newlines cs)"

definition open_read :: "file_state \<Rightarrow> os_error + string" where
  "open_read f =
     (case f of
        Absent \<Rightarrow> Inl FileNotFoundError
      | Unreadable e \<Rightarrow> Inl e
      | Present raw \<Rightarrow> Inr (universal_newlines raw))"

definition DEFAULT_PROMPT :: string where
  "DEFAULT_PROMPT =
     ''You are a helpful assistant that can answer questions about the knowledge base.'' @
     [CHR 0x0A] @
     ''    Use the tools provided to fetch information from the knowledge base.'' @
     [CHR 0x0A] @
     ''    If you don't know the answer, say '' @ [CHR 0x22] @ ''I don't know'' @ [CHR 0x22] @ ''.''"

text \<open>
  \<^verbatim>\<open>try: with open("prompt.txt", "r") as f: PROMPT = f.read()\<close>,
  \<^verbatim>\<open>except FileNotFoundError: PROMPT = <default>\<close>. Any other exception leaves the module.
\<close>

definition load_prompt :: "(string \<Rightarrow> file_state) \<Rightarrow> os_error + string" where
  "load_prompt fs =
     (case open_read (fs ''prompt.txt'') of
        Inr text \<Rightarrow> Inr text
      | Inl err \<Rightarrow> if err = FileNotFoundError then Inr DEFAULT_PROMPT else Inl err)"

section \<open>The agent assembler\<close>

text \<open>\<^verbatim>\<open>os.getenv(key, default)\<close> on the process environment.\<close>

definition getenv :: "(string \<rightharpoonup> string) \<Rightarrow> string \<Rightarrow> string \<Rightarrow> string" where
  "getenv env key dflt = (case env key of None \<Rightarrow> dflt | Some v \<Rightarrow> v)"

text \<open>The keyword arguments of \<^verbatim>\<open>init_chat_model\<close>.\<close>

record llm_config =
  model :: string
  base_url :: string
  api_key :: string

definition init_chat_model_args :: "(string \<rightharpoonup> string) \<Rightarrow> llm_config" where
  "init_chat_model_args env =
     \<lparr>model = getenv env ''LLM_API_MODEL'' ''anthropic:claude-4-sonnet-latest'',
      base_url = getenv env ''LLM_API_URL'' ''http://localhost:8080'',
      api_key = getenv env ''LLM_API_KEY'' ''test''\<rparr>"

text \<open>
  The keyword arguments of \<^verbatim>\<open>create_react_agent\<close>; the checkpointer is a fresh
  \<^verbatim>\<open>MemorySaver()\<close>, which the library function gives back as the agent's first store.
\<close>

record 't agent_args =
  agent_model :: llm_config
  agent_tools :: 't
  agent_prompt :: string

definition create_chatbot ::
  "('t agent_args \<Rightarrow> 'a) \<Rightarrow> (string \<rightharpoonup> string) \<Rightarrow> string \<Rightarrow> 't \<Rightarrow> 'a" where
  "create_chatbot create_react_agent env PROMPT tools =
     create_react_agent
       \<lparr>agent_model = init_chat_model_args env, agent_tools = tools, agent_prompt = PROMPT\<rparr>"

section \<open>The program\<close>

text \<open>
  What leaving an \<^verbatim>\<open>async with\<close> block of the tool channel does to an exception raised in
  its body: \<^verbatim>\<open>stdio_client\<close> and \<^verbatim>\<open>ClientSession\<close> each hold a task group, whose exit
  cancels its tasks and raises an exception group with the body's exception in it.
\<close>

definition task_group_exit :: "'e error \<Rightarrow> 'e error" where
  "task_group_exit err = ExceptionGroup [err]"

text \<open>
  \<^verbatim>\<open>main\<close>: the tool channel (\<open>connect\<close>: the subprocess, the handshake and the tool
  discovery, with the exception that leaves \<^verbatim>\<open>main\<close> when one of them fails), the agent,
  the session loop. There is no \<^verbatim>\<open>try\<close> in \<^verbatim>\<open>main\<close>: an exception of the session loop
  leaves the block of \<^verbatim>\<open>ClientSession\<close> and then the block of \<^verbatim>\<open>stdio_client\<close>. The
  result is the exception that left \<^verbatim>\<open>main\<close>, if any, standard output, and the lines left
  unread.
\<close>

definition main ::
  "('e + 't) \<Rightarrow> ('t agent_args \<Rightarrow> ('m, 'e, 'g) graph \<times> 'g) \<Rightarrow> (string \<rightharpoonup> string) \<Rightarrow>
     string \<Rightarrow> string list \<Rightarrow> 'e error option \<times> 'm written list \<times> string list" where
  "main connect create_react_agent env PROMPT lines =
     (case connect of
        Inl e \<Rightarrow> (Some (StartupError e), [], lines)
      | Inr tools \<Rightarrow>
          (let (graph, g0) = create_chatbot create_react_agent env PROMPT tools;
               (r, s, rest) = invoke_graph graph g0 lines
           in (case r of
                 None \<Rightarrow> (None, stdout s, rest)
               | Some err \<Rightarrow> (Some (task_group_exit (task_group_exit err)), stdout s, rest))))"

text \<open>
  The module from top to bottom: the prompt is loaded, then \<^verbatim>\<open>asyncio.run(main())\<close>,
  which raises what \<^verbatim>\<open>main\<close> raises. An exception that leaves the module ends the
  process.
\<close>

definition program ::
  "(string \<Rightarrow> file_state) \<Rightarrow> ('e + 't) \<Rightarrow> ('t agent_args \<Rightarrow> ('m, 'e, 'g) graph \<times> 'g) \<Rightarrow>
     (string \<rightharpoonup> string) \<Rightarrow> string list \<Rightarrow> 'e error option \<times> 'm written list \<times> string list" where
  "program fs connect create_react_agent env lines =
     (case load_prompt fs of
        Inl err \<Rightarrow> (Some (PromptFileError err), [], lines)
      | Inr PROMPT \<Rightarrow> main connect create_react_agent env PROMPT lines)"

subsection \<open>Example environments\<close>

text \<open>
  What \<^verbatim>\<open>create_react_agent\<close> returns in the examples, and four states of the file
  system: no prompt file, one with leading and trailing white space, one whose line ends
  in \<^verbatim>\<open>"\r\n"\<close>, and one that may not be read.
\<close>

definition echo_agent :: "string list agent_args \<Rightarrow> (string, string, nat) graph \<times> nat" where
  "echo_agent args = (echo_graph, 0)"

definition failing_agent :: "string list agent_args \<Rightarrow> (string, string, nat) graph \<times> nat" where
  "failing_agent args = (failing_graph, 0)"

definition no_prompt_file :: "string \<Rightarrow> file_state" where
  "no_prompt_file path = Absent"

definition plain_prompt_file :: "string \<Rightarrow> file_state" where
  "plain_prompt_file path =
     (if path = ''prompt.txt'' then Present ('' Be brief.  '' @ [CHR 0x0A]) else Absent)"

definition crlf_prompt_file :: "string \<Rightarrow> file_state" where
  "crlf_prompt_file path =
     (if path = ''prompt.txt'' then Present (''X'' @ [CHR 0x0D, CHR 0x0A]) else Absent)"

definition locked_prompt_file :: "string \<Rightarrow> file_state" where
  "locked_prompt_file path =
     (if path = ''prompt.txt'' then Unreadable PermissionError else Absent)"

section \<open>Facts about the loop\<close>

lemma lower_examples:
  "lower ''QUIT'' = ''quit''" "lower ''Quit'' = ''quit''" "lower ''quit'' = ''quit''"
  by (simp_all add: lower_def lower_char_def)

lemma turn_unfold:
  "graph (memory s) (messages s @ [\<lparr>role = ''user'', content = l\<rparr>]) thread_id = (str, g) \<Longrightarrow>
   turn graph s l =
     (fst (async_for str (stdout s)),
      \<lparr>messages = messages s @ [\<lparr>role = ''user'', content = l\<rparr>],
       stdout = snd (async_for str (stdout s)),
       memory = g,
       astream_calls = astream_calls s @ [messages s @ [\<lparr>role = ''user'', content = l\<rparr>]]\<rparr>)"
  by (simp add: turn_def Let_def split: prod.splits)

lemma turn_messages:
  "messages (snd (turn graph s l)) = messages s @ [\<lparr>role = ''user'', content = l\<rparr>]"
  by (simp add: turn_def Let_def split: prod.splits)

lemma turn_astream_calls:
  "astream_calls (snd (turn graph s l)) =
     astream_calls s @ [messages s @ [\<lparr>role = ''user'', content = l\<rparr>]]"
  by (simp add: turn_def Let_def split: prod.splits)

lemma turn_fst:
  "fst (turn graph s l) =
     fst (async_for (fst (graph (memory s) (messages s @ [\<lparr>role = ''user'', content = l\<rparr>]) thread_id))
            (stdout s))"
  by (simp add: turn_def Let_def split: prod.splits)

lemma turn_stdout:
  "stdout (snd (turn graph s l)) =
     snd (async_for (fst (graph (memory s) (messages s @ [\<lparr>role = ''user'', content = l\<rparr>]) thread_id))
            (stdout s))"
  by (simp add: turn_def Let_def split: prod.splits)

lemma while_loop_non_quit:
  "lower l \<noteq> ''quit'' \<Longrightarrow>
   while_loop graph s (l # rest) =
     (case fst (turn graph (s\<lparr>stdout := stdout s @ [Prompt ''User: '']\<rparr>) l) of
        None \<Rightarrow> while_loop graph (snd (turn graph (s\<lparr>stdout := stdout s @ [Prompt ''User: '']\<rparr>) l)) rest
      | Some err \<Rightarrow> (Some err, snd (turn graph (s\<lparr>stdout := stdout s @ [Prompt ''User: '']\<rparr>) l), rest))"
  by (simp add: Let_def split: prod.splits option.splits)

lemma async_for_stdout:
  "snd (async_for str out) =
     out @ map (\<lambda>ev. PrettyPrint (last (event_messages ev)))
             (takeWhile (\<lambda>ev. event_messages ev \<noteq> []) (snapshots str))"
  by (induction str arbitrary: out) (simp_all add: index_last_def)

lemma async_for_IndexError:
  "fst (async_for str out) = Some IndexError \<longleftrightarrow> (\<exists>ev \<in> set (snapshots str). event_messages ev = [])"
  by (induction str arbitrary: out) (auto simp add: index_last_def)

lemma async_for_AgentError:
  "fst (async_for str out) = Some (AgentError e) \<Longrightarrow> (\<forall>ev \<in> set (snapshots str). event_messages ev \<noteq> [])"
  by (induction str arbitrary: out) (auto simp add: index_last_def split: if_splits)

lemma while_loop_messages_prefix:
  "\<exists>ys. messages (fst (snd (while_loop graph s lines))) = messages s @ ys"
proof (induction lines arbitrary: s)
  case Nil
  show ?case by simp
next
  case (Cons l rest)
  let ?t = "turn graph (s\<lparr>stdout := stdout s @ [Prompt ''User: '']\<rparr>) l"
  show ?case
  proof (cases "lower l = ''quit''")
    case True
    then show ?thesis by simp
  next
    case False
    have m: "messages (snd ?t) = messages s @ [\<lparr>role = ''user'', content = l\<rparr>]"
      by (simp add: turn_messages)
    show ?thesis
    proof (cases "fst ?t")
      case None
      from Cons.IH [of "snd ?t"] obtain ys where
        "messages (fst (snd (while_loop graph (snd ?t) rest))) = messages (snd ?t) @ ys"
        by blast
      with None m show ?thesis
        by (simp add: while_loop_non_quit [OF False] del: while_loop.simps)
    next
      case (Some err)
      with m show ?thesis
        by (simp add: while_loop_non_quit [OF False] del: while_loop.simps)
    qed
  qed
qed

lemma while_loop_no_IndexError:
  assumes "\<And>g h t ev. ev \<in> set (snapshots (fst (graph g h t))) \<Longrightarrow> event_messages ev \<noteq> []"
  shows "fst (while_loop graph s lines) \<noteq> Some IndexError"
proof (induction lines arbitrary: s)
  case Nil
  show ?case by simp
next
  case (Cons l rest)
  let ?t = "turn graph (s\<lparr>stdout := stdout s @ [Prompt ''User: '']\<rparr>) l"
  show ?case
  proof (cases "lower l = ''quit''")
    case True
    then show ?thesis by simp
  next
    case False
    have ne: "fst ?t \<noteq> Some IndexError"
      unfolding turn_fst async_for_IndexError using assms by blast
    show ?thesis
    proof (cases "fst ?t")
      case None
      with Cons.IH [of "snd ?t"] show ?thesis
        by (simp add: while_loop_non_quit [OF False] del: while_loop.simps)
    next
      case (Some err)
      with ne show ?thesis
        by (simp add: while_loop_non_quit [OF False] del: while_loop.simps)
    qed
  qed
qed

lemma async_for_events_then_Failed:
  "list_all (\<lambda>ev. event_messages ev \<noteq> []) evs \<Longrightarrow>
   async_for (foldr Event evs (Failed e)) out =
     (Some (AgentError e), out @ map (\<lambda>ev. PrettyPrint (last (event_messages ev))) evs)"
  by (induction evs arbitrary: out) (simp_all add: index_last_def)

lemma while_loop_stream_fails:
  assumes "lower user_input \<noteq> ''quit''"
    and "graph (memory s) (messages s @ [\<lparr>role = ''user'', content = user_input\<rparr>]) thread_id =
           (foldr Event evs (Failed e), g)"
    and "list_all (\<lambda>ev. event_messages ev \<noteq> []) evs"
  shows "while_loop graph s (user_input # rest) =
      (Some (AgentError e),
       \<lparr>messages = messages s @ [\<lparr>role = ''user'', content = user_input\<rparr>],
        stdout = stdout s @ Prompt ''User: '' #
                 map (\<lambda>ev. PrettyPrint (last (event_messages ev))) evs,
        memory = g,
        astream_calls = astream_calls s @ [messages s @ [\<lparr>role = ''user'', content = user_input\<rparr>]]\<rparr>,
       rest)"
proof -
  let ?s1 = "s\<lparr>stdout := stdout s @ [Prompt ''User: '']\<rparr>"
  have "turn graph ?s1 user_input =
      (Some (AgentError e),
       \<lparr>messages = messages s @ [\<lparr>role = ''user'', content = user_input\<rparr>],
        stdout = stdout s @ Prompt ''User: '' #
                 map (\<lambda>ev. PrettyPrint (last (event_messages ev))) evs,
        memory = g,
        astream_calls = astream_calls s @ [messages s @ [\<lparr>role = ''user'', content = user_input\<rparr>]]\<rparr>)"
    using assms(2) turn_unfold [of graph ?s1 user_input "foldr Event evs (Failed e)" g]
    by (simp add: async_for_events_then_Failed [OF assms(3)])
  then show ?thesis
    using assms(1) by simp
qed

subsection \<open>Facts about the prompt file\<close>

lemma universal_newlines_no_CR:
  "CHR 0x0D \<notin> set X \<Longrightarrow> universal_newlines X = X"
  by (induction X rule: universal_newlines.induct) auto

lemma load_prompt_Absent: "fs ''prompt.txt'' = Absent \<Longrightarrow> load_prompt fs = Inr DEFAULT_PROMPT"
  by (simp add: load_prompt_def open_read_def)

lemma load_prompt_Present:
  "fs ''prompt.txt'' = Present X \<Longrightarrow> load_prompt fs = Inr (universal_newlines X)"
  by (simp add: load_prompt_def open_read_def)

lemma load_prompt_Inl:
  "load_prompt fs = Inl err \<longleftrightarrow> open_read (fs ''prompt.txt'') = Inl err \<and> err \<noteq> FileNotFoundError"
  by (auto simp add: load_prompt_def split: sum.splits if_splits)

section \<open>The machine runs the loop\<close>

lemma step_AWAITING_EOF:
  "phase c = AWAITING_INPUT \<Longrightarrow> unread c = [] \<Longrightarrow>
   step graph c = c\<lparr>phase := RAISED EOFError,
                      sess := (sess c)\<lparr>stdout := stdout (sess c) @ [Prompt ''User: '']\<rparr>\<rparr>"
  by (simp add: step_def)

lemma step_AWAITING_quit:
  "phase c = AWAITING_INPUT \<Longrightarrow> unread c = l # rest \<Longrightarrow> lower l = ''quit'' \<Longrightarrow>
   step graph c = c\<lparr>phase := TERMINATED,
                      sess := (sess c)\<lparr>stdout := stdout (sess c) @ [Prompt ''User: '', Print ''Exiting...'']\<rparr>,
                      unread := rest\<rparr>"
  by (simp add: step_def)

lemma step_AWAITING_turn:
  "phase c = AWAITING_INPUT \<Longrightarrow> unread c = l # rest \<Longrightarrow> lower l \<noteq> ''quit'' \<Longrightarrow>
   graph (memory (sess c)) (messages (sess c) @ [\<lparr>role = ''user'', content = l\<rparr>]) thread_id = (str, g) \<Longrightarrow>
   step graph c =
     c\<lparr>phase := STREAMING_RESPONSE,
       sess := \<lparr>messages = messages (sess c) @ [\<lparr>role = ''user'', content = l\<rparr>],
                 stdout = stdout (sess c) @ [Prompt ''User: ''],
                 memory = g,
                 astream_calls = astream_calls (sess c) @ [messages (sess c) @ [\<lparr>role = ''user'', content = l\<rparr>]]\<rparr>,
       pending := str,
       unread := rest\<rparr>"
  by (simp add: step_def Let_def)

lemma step_STREAMING_Exhausted:
  "phase c = STREAMING_RESPONSE \<Longrightarrow> pending c = Exhausted \<Longrightarrow>
   step graph c = c\<lparr>phase := AWAITING_INPUT\<rparr>"
  by (simp add: step_def)

lemma step_STREAMING_Failed:
  "phase c = STREAMING_RESPONSE \<Longrightarrow> pending c = Failed e \<Longrightarrow>
   step graph c = c\<lparr>phase := RAISED (AgentError e)\<rparr>"
  by (simp add: step_def)

lemma step_STREAMING_empty:
  "phase c = STREAMING_RESPONSE \<Longrightarrow> pending c = Event ev rest \<Longrightarrow> event_messages ev = [] \<Longrightarrow>
   step graph c = c\<lparr>phase := RAISED IndexError\<rparr>"
  by (simp add: step_def index_last_def)

lemma step_STREAMING_print:
  "phase c = STREAMING_RESPONSE \<Longrightarrow> pending c = Event ev rest \<Longrightarrow> event_messages ev \<noteq> [] \<Longrightarrow>
   step graph c = c\<lparr>sess := (sess c)\<lparr>stdout := stdout (sess c) @ [PrettyPrint (last (event_messages ev))]\<rparr>,
                      pending := rest\<rparr>"
  by (simp add: step_def index_last_def)

lemma step_TERMINATED: "phase c = TERMINATED \<Longrightarrow> step graph c = c"
  by (simp add: step_def)

lemma step_RAISED: "phase c = RAISED err \<Longrightarrow> step graph c = c"
  by (simp add: step_def)

lemma step_cases [case_names EOF Quit Turn Done Fail Empty Print Stopped Crashed]:
  obtains
    "phase c = AWAITING_INPUT" and "unread c = []" and
      "step graph c = c\<lparr>phase := RAISED EOFError,
                         sess := (sess c)\<lparr>stdout := stdout (sess c) @ [Prompt ''User: '']\<rparr>\<rparr>"
  | l rest where "phase c = AWAITING_INPUT" and "unread c = l # rest" and "lower l = ''quit''" and
      "step graph c = c\<lparr>phase := TERMINATED,
                         sess := (sess c)\<lparr>stdout := stdout (sess c) @ [Prompt ''User: '', Print ''Exiting...'']\<rparr>,
                         unread := rest\<rparr>"
  | l rest str g where "phase c = AWAITING_INPUT" and "unread c = l # rest" and "lower l \<noteq> ''quit''" and
      "step graph c =
         c\<lparr>phase := STREAMING_RESPONSE,
           sess := \<lparr>messages = messages (sess c) @ [\<lparr>role = ''user'', content = l\<rparr>],
                     stdout = stdout (sess c) @ [Prompt ''User: ''],
                     memory = g,
                     astream_calls = astream_calls (sess c) @ [messages (sess c) @ [\<lparr>role = ''user'', content = l\<rparr>]]\<rparr>,
           pending := str,
           unread := rest\<rparr>"
  | "phase c = STREAMING_RESPONSE" and "pending c = Exhausted" and
      "step graph c = c\<lparr>phase := AWAITING_INPUT\<rparr>"
  | e where "phase c = STREAMING_RESPONSE" and "pending c = Failed e" and
      "step graph c = c\<lparr>phase := RAISED (AgentError e)\<rparr>"
  | ev rest where "phase c = STREAMING_RESPONSE" and "pending c = Event ev rest" and
      "event_messages ev = []" and "step graph c = c\<lparr>phase := RAISED IndexError\<rparr>"
  | ev rest where "phase c = STREAMING_RESPONSE" and "pending c = Event ev rest" and
      "event_messages ev \<noteq> []" and
      "step graph c = c\<lparr>sess := (sess c)\<lparr>stdout := stdout (sess c) @ [PrettyPrint (last (event_messages ev))]\<rparr>,
                         pending := rest\<rparr>"
  | "phase c = TERMINATED" and "step graph c = c"
  | err where "phase c = RAISED err" and "step graph c = c"
proof (cases "phase c")
  case AWAITING_INPUT
  show ?thesis
  proof (cases "unread c")
    case Nil
    with AWAITING_INPUT that(1) show ?thesis by (simp add: step_AWAITING_EOF)
  next
    case (Cons l rest)
    show ?thesis
    proof (cases "lower l = ''quit''")
      case True
      with AWAITING_INPUT Cons that(2) show ?thesis by (simp add: step_AWAITING_quit)
    next
      case False
      obtain str g where
        "graph (memory (sess c)) (messages (sess c) @ [\<lparr>role = ''user'', content = l\<rparr>]) thread_id = (str, g)"
        by (cases "graph (memory (sess c)) (messages (sess c) @ [\<lparr>role = ''user'', content = l\<rparr>]) thread_id")
      with AWAITING_INPUT Cons False that(3) show ?thesis by (simp add: step_AWAITING_turn)
    qed
  qed
next
  case STREAMING_RESPONSE
  show ?thesis
  proof (cases "pending c")
    case Exhausted
    with STREAMING_RESPONSE that(4) show ?thesis by (simp add: step_STREAMING_Exhausted)
  next
    case (Failed e)
    with STREAMING_RESPONSE that(5) show ?thesis by (simp add: step_STREAMING_Failed)
  next
    case (Event ev rest)
    show ?thesis
    proof (cases "event_messages ev = []")
      case True
      with STREAMING_RESPONSE Event that(6) show ?thesis by (simp add: step_STREAMING_empty)
    next
      case False
      with STREAMING_RESPONSE Event that(7) show ?thesis by (simp add: step_STREAMING_print)
    qed
  qed
next
  case TERMINATED
  with that(8) show ?thesis by (simp add: step_TERMINATED)
next
  case (RAISED err)
  with that(9) show ?thesis by (simp add: step_RAISED)
qed

lemma step_messages_prefix:
  "\<exists>ys. messages (sess (step graph c)) = messages (sess c) @ ys"
  by (rule step_cases [where c = c and graph = graph]) simp_all

lemma step_to_AWAITING:
  "phase (step graph c) = AWAITING_INPUT \<Longrightarrow>
   phase c = STREAMING_RESPONSE \<and> pending c = Exhausted \<and> pending (step graph c) = Exhausted"
  by (rule step_cases [where c = c and graph = graph]) simp_all

lemma step_from_AWAITING:
  "phase c = AWAITING_INPUT \<Longrightarrow>
   phase (step graph c) =
     (case unread c of
        [] \<Rightarrow> RAISED EOFError
      | l # rest \<Rightarrow> if lower l = ''quit'' then TERMINATED else STREAMING_RESPONSE)"
  by (rule step_cases [where c = c and graph = graph]) simp_all

lemma step_from_STREAMING:
  "phase c = STREAMING_RESPONSE \<Longrightarrow>
   (phase (step graph c) = AWAITING_INPUT \<longleftrightarrow> pending c = Exhausted) \<and>
   phase (step graph c) \<noteq> TERMINATED"
  by (rule step_cases [where c = c and graph = graph]) simp_all

lemma step_reads:
  "unread (step graph c) \<noteq> unread c \<Longrightarrow> phase c = AWAITING_INPUT"
  by (rule step_cases [where c = c and graph = graph]) simp_all

lemma step_invokes:
  "astream_calls (sess (step graph c)) \<noteq> astream_calls (sess c) \<Longrightarrow> phase c = AWAITING_INPUT"
  by (rule step_cases [where c = c and graph = graph]) simp_all

lemma stream_steps:
  "pending c = str \<Longrightarrow> phase c = STREAMING_RESPONSE \<Longrightarrow>
   \<exists>n. sess ((step graph ^^ n) c) = (sess c)\<lparr>stdout := snd (async_for str (stdout (sess c)))\<rparr> \<and>
       unread ((step graph ^^ n) c) = unread c \<and>
       (case fst (async_for str (stdout (sess c))) of
          None \<Rightarrow> phase ((step graph ^^ n) c) = AWAITING_INPUT \<and> pending ((step graph ^^ n) c) = Exhausted
        | Some err \<Rightarrow> phase ((step graph ^^ n) c) = RAISED err)"
proof (induction str arbitrary: c)
  case Exhausted
  then have "step graph c = c\<lparr>phase := AWAITING_INPUT\<rparr>"
    by (simp add: step_STREAMING_Exhausted)
  with Exhausted show ?case
    by (intro exI [of _ 1]) simp
next
  case (Failed e)
  then have "step graph c = c\<lparr>phase := RAISED (AgentError e)\<rparr>"
    by (simp add: step_STREAMING_Failed)
  with Failed show ?case
    by (intro exI [of _ 1]) simp
next
  case (Event ev rest)
  show ?case
  proof (cases "event_messages ev = []")
    case True
    with Event.prems have "step graph c = c\<lparr>phase := RAISED IndexError\<rparr>"
      by (simp add: step_STREAMING_empty)
    with Event.prems True show ?thesis
      by (intro exI [of _ 1]) (simp add: index_last_def)
  next
    case False
    let ?c1 = "c\<lparr>sess := (sess c)\<lparr>stdout := stdout (sess c) @ [PrettyPrint (last (event_messages ev))]\<rparr>,
                 pending := rest\<rparr>"
    from Event.prems False have st: "step graph c = ?c1"
      by (simp add: step_STREAMING_print)
    have "pending ?c1 = rest" "phase ?c1 = STREAMING_RESPONSE"
      using Event.prems by simp_all
    from Event.IH [OF this] obtain n where n:
      "sess ((step graph ^^ n) ?c1) = (sess ?c1)\<lparr>stdout := snd (async_for rest (stdout (sess ?c1)))\<rparr>"
      "unread ((step graph ^^ n) ?c1) = unread ?c1"
      "(case fst (async_for rest (stdout (sess ?c1))) of
          None \<Rightarrow> phase ((step graph ^^ n) ?c1) = AWAITING_INPUT \<and> pending ((step graph ^^ n) ?c1) = Exhausted
        | Some err \<Rightarrow> phase ((step graph ^^ n) ?c1) = RAISED err)"
      by blast
    have f: "(step graph ^^ Suc n) c = (step graph ^^ n) ?c1"
      using st by (simp add: funpow_swap1)
    have a: "async_for (Event ev rest) (stdout (sess c)) = async_for rest (stdout (sess ?c1))"
      using False by (simp add: index_last_def)
    show ?thesis
      apply (rule exI [of _ "Suc n"])
      unfolding f a using n by simp
  qed
qed

lemma machine_runs_loop:
  "unread c = lines \<Longrightarrow> phase c = AWAITING_INPUT \<Longrightarrow>
   \<exists>n. phase ((step graph ^^ n) c) = final_phase (fst (while_loop graph (sess c) lines)) \<and>
       sess ((step graph ^^ n) c) = fst (snd (while_loop graph (sess c) lines)) \<and>
       unread ((step graph ^^ n) c) = snd (snd (while_loop graph (sess c) lines))"
proof (induction lines arbitrary: c)
  case Nil
  then show ?case
    by (intro exI [of _ 1]) (simp add: step_AWAITING_EOF final_phase_def)
next
  case (Cons l rest)
  show ?case
  proof (cases "lower l = ''quit''")
    case True
    with Cons.prems show ?thesis
      by (intro exI [of _ 1]) (simp add: step_AWAITING_quit final_phase_def)
  next
    case False
    let ?s1 = "(sess c)\<lparr>stdout := stdout (sess c) @ [Prompt ''User: '']\<rparr>"
    obtain str g where gr:
      "graph (memory (sess c)) (messages (sess c) @ [\<lparr>role = ''user'', content = l\<rparr>]) thread_id = (str, g)"
      by (cases "graph (memory (sess c)) (messages (sess c) @ [\<lparr>role = ''user'', content = l\<rparr>]) thread_id")
    let ?msgs = "messages (sess c) @ [\<lparr>role = ''user'', content = l\<rparr>]"
    let ?c1 = "c\<lparr>phase := STREAMING_RESPONSE,
                 sess := \<lparr>messages = ?msgs, stdout = stdout (sess c) @ [Prompt ''User: ''], memory = g,
                           astream_calls = astream_calls (sess c) @ [?msgs]\<rparr>,
                 pending := str, unread := rest\<rparr>"
    have st: "step graph c = ?c1"
      using Cons.prems False gr by (simp add: step_AWAITING_turn)
    let ?r = "fst (async_for str (stdout ?s1))"
    let ?s2 = "\<lparr>messages = ?msgs, stdout = snd (async_for str (stdout ?s1)), memory = g,
                astream_calls = astream_calls (sess c) @ [?msgs]\<rparr>"
    have tu: "turn graph ?s1 l = (?r, ?s2)"
      using turn_unfold [of graph ?s1 l str g] gr by simp
    have "pending ?c1 = str" "phase ?c1 = STREAMING_RESPONSE" by simp_all
    from stream_steps [OF this, of graph] obtain n where n:
      "sess ((step graph ^^ n) ?c1) = ?s2"
      "unread ((step graph ^^ n) ?c1) = rest"
      "(case ?r of
          None \<Rightarrow> phase ((step graph ^^ n) ?c1) = AWAITING_INPUT \<and> pending ((step graph ^^ n) ?c1) = Exhausted
        | Some err \<Rightarrow> phase ((step graph ^^ n) ?c1) = RAISED err)"
      by auto
    have f: "(step graph ^^ Suc n) c = (step graph ^^ n) ?c1"
      using st by (simp add: funpow_swap1)
    show ?thesis
    proof (cases ?r)
      case (Some err)
      have "while_loop graph (sess c) (l # rest) = (Some err, ?s2, rest)"
        using False tu Some by simp
      moreover have "phase ((step graph ^^ n) ?c1) = RAISED err"
        using n(3) Some by simp
      ultimately show ?thesis
        apply (intro exI [of _ "Suc n"])
        unfolding f using n(1,2) by (simp add: final_phase_def)
    next
      case None
      let ?c2 = "(step graph ^^ n) ?c1"
      have w: "while_loop graph (sess c) (l # rest) = while_loop graph ?s2 rest"
        using False tu None by simp
      have "unread ?c2 = rest" "phase ?c2 = AWAITING_INPUT"
        using n None by simp_all
      from Cons.IH [OF this] obtain k where k:
        "phase ((step graph ^^ k) ?c2) = final_phase (fst (while_loop graph (sess ?c2) rest))"
        "sess ((step graph ^^ k) ?c2) = fst (snd (while_loop graph (sess ?c2) rest))"
        "unread ((step graph ^^ k) ?c2) = snd (snd (while_loop graph (sess ?c2) rest))"
        by blast
      have g: "(step graph ^^ (k + Suc n)) c = (step graph ^^ k) ?c2"
        unfolding funpow_add using f by simp
      show ?thesis
        apply (intro exI [of _ "k + Suc n"])
        unfolding g w using k n(1) by simp
    qed
  qed
qed

lemma run_Suc: "run graph g0 lines (Suc n) = step graph (run graph g0 lines n)"
  by (simp add: run_def)

lemma run_0: "run graph g0 lines 0 = initial g0 lines"
  by (simp add: run_def)

lemma run_AWAITING_pending:
  "phase (run graph g0 lines n) = AWAITING_INPUT \<Longrightarrow> pending (run graph g0 lines n) = Exhausted"
proof (cases n)
  case 0
  then show ?thesis by (simp add: run_def initial_def)
next
  case (Suc k)
  assume "phase (run graph g0 lines n) = AWAITING_INPUT"
  with Suc have "phase (step graph (run graph g0 lines k)) = AWAITING_INPUT"
    by (simp add: run_def)
  from step_to_AWAITING [OF this] show ?thesis
    using Suc by (simp add: run_def)
qed

lemma run_reaches_result:
  "\<exists>k. phase (run graph g0 lines k) = final_phase (fst (invoke_graph graph g0 lines)) \<and>
       sess (run graph g0 lines k) = fst (snd (invoke_graph graph g0 lines)) \<and>
       unread (run graph g0 lines k) = snd (snd (invoke_graph graph g0 lines))"
  using machine_runs_loop [of "initial g0 lines" lines graph]
  by (simp add: run_def invoke_graph_def initial_def)

section \<open>The quit command\<close>

text \<open>
  C1, as the specification states it: every line whose trimmed, case-insensitive form is
  \<^verbatim>\<open>"quit"\<close> ends the loop and appends nothing. The program does not trim: the line
  \<^verbatim>\<open>" quit "\<close> is the quit command in the specification's sense, and the loop appends it
  to the history, hands it to the agent and goes on to read the next line.
\<close>

theorem trimmed_quit_is_appended:
  "spec_is_quit '' quit '' \<and>
   invoke_graph echo_graph 0 ['' quit '', ''quit''] =
     (None,
      \<lparr>messages = [\<lparr>role = ''user'', content = '' quit ''\<rparr>],
       stdout = [Prompt ''User: '', PrettyPrint '' quit '', PrettyPrint ''ok'',
                 Prompt ''User: '', Print ''Exiting...''],
       memory = 1,
       astream_calls = [[\<lparr>role = ''user'', content = '' quit ''\<rparr>]]\<rparr>,
      [])"
  by (simp add: spec_is_quit_def spec_strip_def is_space_def lower_def lower_char_def
      invoke_graph_def turn_def Let_def echo_graph_def index_last_def thread_id_def)

text \<open>
  C1, amended: for every line whose lower-cased form is \<^verbatim>\<open>"quit"\<close> as it stands, without
  trimming (\<^verbatim>\<open>"QUIT"\<close>, \<^verbatim>\<open>"Quit"\<close>, \<^verbatim>\<open>"quit"\<close>), the loop writes the exit notice and
  returns; the history is what it was, the agent is not invoked, and the lines after it
  stay unread.
\<close>

theorem quit_any_case_breaks_loop:
  assumes "lower user_input = ''quit''"
  shows "while_loop graph s (user_input # rest) =
           (None, s\<lparr>stdout := stdout s @ [Prompt ''User: '', Print ''Exiting...'']\<rparr>, rest) \<and>
         messages (fst (snd (while_loop graph s (user_input # rest)))) = messages s \<and>
         astream_calls (fst (snd (while_loop graph s (user_input # rest)))) = astream_calls s"
  using assms by simp

theorem quit_any_case_breaks_loop_witness:
  "lower ''QUIT'' = ''quit'' \<and>
   while_loop echo_graph
     \<lparr>messages = [\<lparr>role = ''user'', content = ''Hello''\<rparr>], stdout = [], memory = 1,
      astream_calls = [[\<lparr>role = ''user'', content = ''Hello''\<rparr>]]\<rparr>
     [''QUIT'', ''more''] =
   (None,
    \<lparr>messages = [\<lparr>role = ''user'', content = ''Hello''\<rparr>],
     stdout = [Prompt ''User: '', Print ''Exiting...''], memory = 1,
     astream_calls = [[\<lparr>role = ''user'', content = ''Hello''\<rparr>]]\<rparr>,
    [''more''])"
proof -
  have h: "lower ''QUIT'' = ''quit''"
    by (simp add: lower_def lower_char_def)
  from quit_any_case_breaks_loop [OF h, of echo_graph
      "\<lparr>messages = [\<lparr>role = ''user'', content = ''Hello''\<rparr>], stdout = [], memory = 1,
        astream_calls = [[\<lparr>role = ''user'', content = ''Hello''\<rparr>]]\<rparr>" "[''more'']"]
  show ?thesis using h by simp
qed

section \<open>A turn appends the user's line\<close>

text \<open>
  C2: for every line that is not the quit command, the empty line included, the turn
  appends exactly the entry \<^verbatim>\<open>{role: user, content: <line>}\<close> to the history, so the
  history is one entry longer, and the one invocation of the agent in this turn receives
  the history with the new entry already in it. The loop then goes on from that state,
  or ends in it when the stream raised.
\<close>

theorem non_quit_appends_user_entry:
  assumes "lower user_input \<noteq> ''quit''"
  shows "\<exists>r s2. turn graph (s\<lparr>stdout := stdout s @ [Prompt ''User: '']\<rparr>) user_input = (r, s2) \<and>
           while_loop graph s (user_input # rest) =
             (case r of None \<Rightarrow> while_loop graph s2 rest | Some err \<Rightarrow> (Some err, s2, rest)) \<and>
           messages s2 = messages s @ [\<lparr>role = ''user'', content = user_input\<rparr>] \<and>
           length (messages s2) = Suc (length (messages s)) \<and>
           astream_calls s2 = astream_calls s @ [messages s2]"
proof -
  let ?t = "turn graph (s\<lparr>stdout := stdout s @ [Prompt ''User: '']\<rparr>) user_input"
  have m: "messages (snd ?t) = messages s @ [\<lparr>role = ''user'', content = user_input\<rparr>]"
    by (simp add: turn_messages)
  have c: "astream_calls (snd ?t) = astream_calls s @ [messages (snd ?t)]"
    by (simp add: turn_messages turn_astream_calls)
  have w: "while_loop graph s (user_input # rest) =
             (case fst ?t of None \<Rightarrow> while_loop graph (snd ?t) rest
              | Some err \<Rightarrow> (Some err, snd ?t, rest))"
    by (rule while_loop_non_quit [OF assms])
  show ?thesis
    apply (rule exI [of _ "fst ?t"])
    apply (rule exI [of _ "snd ?t"])
    using m c w by simp
qed

theorem non_quit_appends_user_entry_witness:
  "lower [] \<noteq> ''quit'' \<and>
   (\<exists>r s2.
      turn echo_graph
        (\<lparr>messages = [], stdout = [], memory = 0, astream_calls = []\<rparr>
           \<lparr>stdout := [] @ [Prompt ''User: '']\<rparr>) [] = (r, s2) \<and>
      while_loop echo_graph \<lparr>messages = [], stdout = [], memory = 0, astream_calls = []\<rparr>
        [[], ''quit''] =
        (case r of None \<Rightarrow> while_loop echo_graph s2 [''quit'']
         | Some err \<Rightarrow> (Some err, s2, [''quit''])) \<and>
      messages s2 = [\<lparr>role = ''user'', content = []\<rparr>] \<and>
      length (messages s2) = Suc 0 \<and>
      astream_calls s2 = [messages s2])"
proof -
  have h: "lower [] \<noteq> ''quit''"
    by (simp add: lower_def)
  from non_quit_appends_user_entry [OF h, of echo_graph
      "\<lparr>messages = [], stdout = [], memory = 0, astream_calls = []\<rparr>" "[''quit'']"]
  show ?thesis using h by simp
qed

section \<open>The history is append-only\<close>

lemma steps_messages_prefix:
  "\<exists>ys. messages (sess ((step graph ^^ n) c)) = messages (sess c) @ ys"
proof (induction n)
  case 0
  show ?case by simp
next
  case (Suc n)
  then obtain ys where ys: "messages (sess ((step graph ^^ n) c)) = messages (sess c) @ ys" by blast
  from step_messages_prefix [of graph "(step graph ^^ n) c"] obtain zs where
    "messages (sess (step graph ((step graph ^^ n) c))) = messages (sess ((step graph ^^ n) c)) @ zs"
    by blast
  with ys show ?case by simp
qed

text \<open>
  C3: the history only grows at its end. After a turn, after the whole loop on any
  lines, and after any number of steps of the machine from any state, the entries that
  were in the history are still its first entries, unchanged and in the same order.
\<close>

theorem history_is_append_only:
  "take (length (messages s)) (messages (snd (turn graph s user_input))) = messages s \<and>
   take (length (messages s)) (messages (fst (snd (while_loop graph s lines)))) = messages s \<and>
   length (messages s) \<le> length (messages (fst (snd (while_loop graph s lines)))) \<and>
   take (length (messages (sess c))) (messages (sess ((step graph ^^ n) c))) = messages (sess c)"
proof -
  obtain ys where ys: "messages (fst (snd (while_loop graph s lines))) = messages s @ ys"
    using while_loop_messages_prefix by blast
  obtain zs where zs: "messages (sess ((step graph ^^ n) c)) = messages (sess c) @ zs"
    using steps_messages_prefix by blast
  show ?thesis
    unfolding ys zs by (simp add: turn_messages)
qed

section \<open>An error while streaming\<close>

text \<open>
  C4: an exception raised while the stream of a turn is consumed is caught nowhere. When
  the agent's stream yields snapshots, each with a message, and then raises \<open>e\<close>, the loop
  ends with that exception: the history holds the line of the failed turn, the snapshots
  before the failure have been printed, the agent has been invoked once for that turn and
  is not invoked again, and the lines after it stay unread. Nothing in \<^verbatim>\<open>main\<close> or in
  the module catches it either: whatever exception the loop ends with leaves both, inside
  the exception groups of the two \<^verbatim>\<open>async with\<close> blocks, and ends the process.
\<close>

theorem stream_error_propagates:
  "(lower user_input \<noteq> ''quit'' \<and>
    graph (memory s) (messages s @ [\<lparr>role = ''user'', content = user_input\<rparr>]) thread_id =
      (foldr Event evs (Failed e), g) \<and>
    list_all (\<lambda>ev. event_messages ev \<noteq> []) evs \<longrightarrow>
    while_loop graph s (user_input # rest) =
      (Some (AgentError e),
       \<lparr>messages = messages s @ [\<lparr>role = ''user'', content = user_input\<rparr>],
        stdout = stdout s @ Prompt ''User: '' #
                 map (\<lambda>ev. PrettyPrint (last (event_messages ev))) evs,
        memory = g,
        astream_calls = astream_calls s @ [messages s @ [\<lparr>role = ''user'', content = user_input\<rparr>]]\<rparr>,
       rest)) \<and>
   ((fs ''prompt.txt'' = Absent \<and> PROMPT = DEFAULT_PROMPT \<or>
     fs ''prompt.txt'' = Present X \<and> PROMPT = universal_newlines X) \<and>
    create_react_agent
      \<lparr>agent_model = init_chat_model_args env, agent_tools = tools, agent_prompt = PROMPT\<rparr> =
      (graph', g0) \<and>
    lower user_input \<noteq> ''quit'' \<and>
    graph' g0 [\<lparr>role = ''user'', content = user_input\<rparr>] thread_id =
      (foldr Event evs (Failed e), g') \<and>
    list_all (\<lambda>ev. event_messages ev \<noteq> []) evs \<longrightarrow>
    program fs (Inr tools) create_react_agent env (user_input # rest) =
      (Some (ExceptionGroup [ExceptionGroup [AgentError e]]),
       Prompt ''User: '' # map (\<lambda>ev. PrettyPrint (last (event_messages ev))) evs,
       rest)) \<and>
   ((fs ''prompt.txt'' = Absent \<and> PROMPT = DEFAULT_PROMPT \<or>
     fs ''prompt.txt'' = Present X \<and> PROMPT = universal_newlines X) \<and>
    create_react_agent
      \<lparr>agent_model = init_chat_model_args env, agent_tools = tools, agent_prompt = PROMPT\<rparr> =
      (graph', g0) \<longrightarrow>
    program fs (Inr tools) create_react_agent env lines =
      (case invoke_graph graph' g0 lines of
         (None, s', rest') \<Rightarrow> (None, stdout s', rest')
       | (Some err, s', rest') \<Rightarrow>
           (Some (ExceptionGroup [ExceptionGroup [err]]), stdout s', rest')))"
proof (intro conjI impI)
  assume a: "lower user_input \<noteq> ''quit'' \<and>
    graph (memory s) (messages s @ [\<lparr>role = ''user'', content = user_input\<rparr>]) thread_id =
      (foldr Event evs (Failed e), g) \<and>
    list_all (\<lambda>ev. event_messages ev \<noteq> []) evs"
  then have a1: "lower user_input \<noteq> ''quit''"
    and a2: "graph (memory s) (messages s @ [\<lparr>role = ''user'', content = user_input\<rparr>]) thread_id =
      (foldr Event evs (Failed e), g)"
    and a3: "list_all (\<lambda>ev. event_messages ev \<noteq> []) evs"
    by simp_all
  show "while_loop graph s (user_input # rest) =
      (Some (AgentError e),
       \<lparr>messages = messages s @ [\<lparr>role = ''user'', content = user_input\<rparr>],
        stdout = stdout s @ Prompt ''User: '' #
                 map (\<lambda>ev. PrettyPrint (last (event_messages ev))) evs,
        memory = g,
        astream_calls = astream_calls s @ [messages s @ [\<lparr>role = ''user'', content = user_input\<rparr>]]\<rparr>,
       rest)"
    by (rule while_loop_stream_fails [where graph = graph and s = s, OF a1 a2 a3])
next
  assume b: "(fs ''prompt.txt'' = Absent \<and> PROMPT = DEFAULT_PROMPT \<or>
     fs ''prompt.txt'' = Present X \<and> PROMPT = universal_newlines X) \<and>
    create_react_agent
      \<lparr>agent_model = init_chat_model_args env, agent_tools = tools, agent_prompt = PROMPT\<rparr> =
      (graph', g0) \<and>
    lower user_input \<noteq> ''quit'' \<and>
    graph' g0 [\<lparr>role = ''user'', content = user_input\<rparr>] thread_id =
      (foldr Event evs (Failed e), g') \<and>
    list_all (\<lambda>ev. event_messages ev \<noteq> []) evs"
  let ?s0 = "\<lparr>messages = [], stdout = [], memory = g0, astream_calls = []\<rparr> :: ('a, 'd) session"
  from b have p: "load_prompt fs = Inr PROMPT"
    by (auto simp add: load_prompt_Absent load_prompt_Present)
  from b have b1: "lower user_input \<noteq> ''quit''"
    and b3: "list_all (\<lambda>ev. event_messages ev \<noteq> []) evs"
    by simp_all
  from b have b2: "graph' (memory ?s0) (messages ?s0 @ [\<lparr>role = ''user'', content = user_input\<rparr>]) thread_id =
      (foldr Event evs (Failed e), g')"
    by simp
  from while_loop_stream_fails [where graph = graph' and s = ?s0 and rest = rest, OF b1 b2 b3]
  have w: "invoke_graph graph' g0 (user_input # rest) =
      (Some (AgentError e),
       \<lparr>messages = [\<lparr>role = ''user'', content = user_input\<rparr>],
        stdout = Prompt ''User: '' # map (\<lambda>ev. PrettyPrint (last (event_messages ev))) evs,
        memory = g',
        astream_calls = [[\<lparr>role = ''user'', content = user_input\<rparr>]]\<rparr>,
       rest)"
    by (simp add: invoke_graph_def del: while_loop.simps)
  from b have c: "create_chatbot create_react_agent env PROMPT tools = (graph', g0)"
    by (simp add: create_chatbot_def)
  show "program fs (Inr tools) create_react_agent env (user_input # rest) =
      (Some (ExceptionGroup [ExceptionGroup [AgentError e]]),
       Prompt ''User: '' # map (\<lambda>ev. PrettyPrint (last (event_messages ev))) evs,
       rest)"
    by (simp add: program_def p main_def c w task_group_exit_def)
next
  assume d: "(fs ''prompt.txt'' = Absent \<and> PROMPT = DEFAULT_PROMPT \<or>
     fs ''prompt.txt'' = Present X \<and> PROMPT = universal_newlines X) \<and>
    create_react_agent
      \<lparr>agent_model = init_chat_model_args env, agent_tools = tools, agent_prompt = PROMPT\<rparr> =
      (graph', g0)"
  then have p: "load_prompt fs = Inr PROMPT"
    by (auto simp add: load_prompt_Absent load_prompt_Present)
  from d have c: "create_chatbot create_react_agent env PROMPT tools = (graph', g0)"
    by (simp add: create_chatbot_def)
  show "program fs (Inr tools) create_react_agent env lines =
      (case invoke_graph graph' g0 lines of
         (None, s', rest') \<Rightarrow> (None, stdout s', rest')
       | (Some err, s', rest') \<Rightarrow>
           (Some (ExceptionGroup [ExceptionGroup [err]]), stdout s', rest'))"
    by (simp add: program_def p main_def c task_group_exit_def split: prod.splits option.splits)
qed

theorem stream_error_propagates_witness:
  "(lower ''Hello'' \<noteq> ''quit'' \<and>
    failing_graph 0 [\<lparr>role = ''user'', content = ''Hello''\<rparr>] thread_id =
      (foldr Event [\<lparr>event_messages = [''hello'', ''Hello'']\<rparr>] (Failed ''timeout''), 1) \<and>
    list_all (\<lambda>ev. event_messages ev \<noteq> []) [\<lparr>event_messages = [''hello'', ''Hello'']\<rparr>] \<and>
    while_loop failing_graph \<lparr>messages = [], stdout = [], memory = 0, astream_calls = []\<rparr>
      [''Hello'', ''again'', ''quit''] =
      (Some (AgentError ''timeout''),
       \<lparr>messages = [\<lparr>role = ''user'', content = ''Hello''\<rparr>],
        stdout = [Prompt ''User: '', PrettyPrint ''Hello''],
        memory = 1,
        astream_calls = [[\<lparr>role = ''user'', content = ''Hello''\<rparr>]]\<rparr>,
       [''again'', ''quit''])) \<and>
   (no_prompt_file ''prompt.txt'' = Absent \<and>
    failing_agent
      \<lparr>agent_model = init_chat_model_args Map.empty, agent_tools = [''search''],
       agent_prompt = DEFAULT_PROMPT\<rparr> = (failing_graph, 0) \<and>
    program no_prompt_file (Inr [''search'']) failing_agent Map.empty [''Hello'', ''again'', ''quit''] =
      (Some (ExceptionGroup [ExceptionGroup [AgentError ''timeout'']]),
       [Prompt ''User: '', PrettyPrint ''Hello''],
       [''again'', ''quit'']))"
proof -
  let ?s0 = "\<lparr>messages = [], stdout = [], memory = 0 :: nat, astream_calls = []\<rparr> :: (string, nat) session"
  let ?evs = "[\<lparr>event_messages = [''hello'', ''Hello'']\<rparr>] :: string event list"
  have h1: "lower ''Hello'' \<noteq> ''quit''"
    by (simp add: lower_def lower_char_def)
  have h2: "failing_graph 0 [\<lparr>role = ''user'', content = ''Hello''\<rparr>] thread_id =
      (foldr Event ?evs (Failed ''timeout''), 1)"
    by (simp add: failing_graph_def)
  have h3: "list_all (\<lambda>ev. event_messages ev \<noteq> []) ?evs"
    by simp
  have h4: "no_prompt_file ''prompt.txt'' = Absent"
    by (simp add: no_prompt_file_def)
  have h5: "failing_agent
      \<lparr>agent_model = init_chat_model_args Map.empty, agent_tools = [''search''],
       agent_prompt = DEFAULT_PROMPT\<rparr> = (failing_graph, 0)"
    by (simp add: failing_agent_def)
  note t = stream_error_propagates
    [of "''Hello''" failing_graph ?s0 ?evs "''timeout''" 1 "[''again'', ''quit'']"
        no_prompt_file DEFAULT_PROMPT "[]" failing_agent Map.empty "[''search'']" failing_graph 0 1]
  have a: "while_loop failing_graph ?s0 [''Hello'', ''again'', ''quit''] =
      (Some (AgentError ''timeout''),
       \<lparr>messages = [\<lparr>role = ''user'', content = ''Hello''\<rparr>],
        stdout = [Prompt ''User: '', PrettyPrint ''Hello''],
        memory = 1,
        astream_calls = [[\<lparr>role = ''user'', content = ''Hello''\<rparr>]]\<rparr>,
       [''again'', ''quit''])"
    using t [THEN conjunct1] h1 h2 h3 by (simp del: while_loop.simps)
  have b: "program no_prompt_file (Inr [''search'']) failing_agent Map.empty [''Hello'', ''again'', ''quit''] =
      (Some (ExceptionGroup [ExceptionGroup [AgentError ''timeout'']]),
       [Prompt ''User: '', PrettyPrint ''Hello''],
       [''again'', ''quit''])"
    using t [THEN conjunct2, THEN conjunct1] h1 h2 h3 h4 h5 by simp
  show ?thesis
    by (intro conjI h1 h2 h3 a h4 h5 b)
qed

section \<open>What a turn prints\<close>

text \<open>
  C5: while the stream of a turn is consumed, the loop writes for each snapshot exactly
  its last message, through the message's own \<^verbatim>\<open>pretty_print()\<close>, and nothing else:
  standard output after the turn is standard output before it followed by the last
  messages of the snapshots, in order, up to the end of the stream or the first snapshot
  that has no message. When every snapshot has a message, that is one line of output per
  snapshot of the stream.
\<close>

theorem loop_prints_last_message_of_each_snapshot:
  "stdout (snd (turn graph s user_input)) =
     stdout s @
     map (\<lambda>ev. PrettyPrint (last (event_messages ev)))
       (takeWhile (\<lambda>ev. event_messages ev \<noteq> [])
          (snapshots (fst (graph (memory s)
             (messages s @ [\<lparr>role = ''user'', content = user_input\<rparr>]) thread_id)))) \<and>
   (list_all (\<lambda>ev. event_messages ev \<noteq> []) (snapshots str) \<longrightarrow>
      snd (async_for str out) =
        out @ map (\<lambda>ev. PrettyPrint (last (event_messages ev))) (snapshots str))"
proof (intro conjI impI)
  show "stdout (snd (turn graph s user_input)) =
     stdout s @
     map (\<lambda>ev. PrettyPrint (last (event_messages ev)))
       (takeWhile (\<lambda>ev. event_messages ev \<noteq> [])
          (snapshots (fst (graph (memory s)
             (messages s @ [\<lparr>role = ''user'', content = user_input\<rparr>]) thread_id))))"
    by (simp add: turn_stdout async_for_stdout)
next
  assume "list_all (\<lambda>ev. event_messages ev \<noteq> []) (snapshots str)"
  then have "takeWhile (\<lambda>ev. event_messages ev \<noteq> []) (snapshots str) = snapshots str"
    by (simp add: list_all_iff takeWhile_eq_all_conv)
  then show "snd (async_for str out) =
        out @ map (\<lambda>ev. PrettyPrint (last (event_messages ev))) (snapshots str)"
    unfolding async_for_stdout by (simp only:)
qed

theorem loop_prints_last_message_of_each_snapshot_witness:
  "list_all (\<lambda>ev. event_messages ev \<noteq> [])
     (snapshots (Event \<lparr>event_messages = [''Hello'']\<rparr>
        (Event \<lparr>event_messages = [''Hello'', ''ok'']\<rparr> (Exhausted :: (string, string) stream)))) \<and>
   snd (async_for (Event \<lparr>event_messages = [''Hello'']\<rparr>
        (Event \<lparr>event_messages = [''Hello'', ''ok'']\<rparr> (Exhausted :: (string, string) stream)))
        [Prompt ''User: '']) =
     [Prompt ''User: '', PrettyPrint ''Hello'', PrettyPrint ''ok'']"
  using loop_prints_last_message_of_each_snapshot
    [of echo_graph "\<lparr>messages = [], stdout = [], memory = 0, astream_calls = []\<rparr>" "''Hello''"
       "Event \<lparr>event_messages = [''Hello'']\<rparr>
        (Event \<lparr>event_messages = [''Hello'', ''ok'']\<rparr> (Exhausted :: (string, string) stream))"
       "[Prompt ''User: '']"]
  by simp

section \<open>Which prompt the agent gets\<close>

text \<open>
  C6, as the specification states it: a prompt file with content \<open>X\<close> gives the prompt
  \<open>X\<close> exactly. The file is opened in text mode, so a file whose content is
  \<^verbatim>\<open>"X\r\n"\<close> gives the prompt \<^verbatim>\<open>"X\n"\<close>.
\<close>

theorem crlf_prompt_is_changed:
  "crlf_prompt_file ''prompt.txt'' = Present (''X'' @ [CHR 0x0D, CHR 0x0A]) \<and>
   load_prompt crlf_prompt_file = Inr (''X'' @ [CHR 0x0A]) \<and>
   load_prompt crlf_prompt_file \<noteq> Inr (''X'' @ [CHR 0x0D, CHR 0x0A])"
  by (simp add: crlf_prompt_file_def load_prompt_def open_read_def)

text \<open>
  C6, amended: without a prompt file the prompt is the built-in default text; with a
  prompt file of content \<open>X\<close> it is \<open>X\<close> after the newline translation of text mode
  (\<^verbatim>\<open>"\r\n"\<close> and \<^verbatim>\<open>"\r"\<close> become \<^verbatim>\<open>"\n"\<close>) and nothing else is changed or trimmed,
  so it is \<open>X\<close> itself when \<open>X\<close> has no carriage return. That prompt is the one
  \<^verbatim>\<open>create_react_agent\<close> receives.
\<close>

theorem prompt_is_default_or_file_text:
  "(fs ''prompt.txt'' = Absent \<longrightarrow> load_prompt fs = Inr DEFAULT_PROMPT) \<and>
   (fs ''prompt.txt'' = Present X \<longrightarrow> load_prompt fs = Inr (universal_newlines X)) \<and>
   (CHR 0x0D \<notin> set X \<longrightarrow> universal_newlines X = X) \<and>
   (load_prompt fs = Inr P \<longrightarrow>
      program fs connect create_react_agent env lines = main connect create_react_agent env P lines) \<and>
   create_chatbot create_react_agent env P tools =
     create_react_agent
       \<lparr>agent_model = init_chat_model_args env, agent_tools = tools, agent_prompt = P\<rparr>"
  by (simp add: load_prompt_Absent load_prompt_Present universal_newlines_no_CR program_def
      create_chatbot_def)

theorem prompt_is_default_or_file_text_witness:
  "(no_prompt_file ''prompt.txt'' = Absent \<and> load_prompt no_prompt_file = Inr DEFAULT_PROMPT) \<and>
   (plain_prompt_file ''prompt.txt'' = Present ('' Be brief.  '' @ [CHR 0x0A]) \<and>
    CHR 0x0D \<notin> set ('' Be brief.  '' @ [CHR 0x0A]) \<and>
    load_prompt plain_prompt_file = Inr ('' Be brief.  '' @ [CHR 0x0A]) \<and>
    program plain_prompt_file (Inr [''search'']) echo_agent Map.empty [''quit''] =
      main (Inr [''search'']) echo_agent Map.empty ('' Be brief.  '' @ [CHR 0x0A]) [''quit''])"
proof -
  have h1: "no_prompt_file ''prompt.txt'' = Absent"
    by (simp add: no_prompt_file_def)
  have h2: "plain_prompt_file ''prompt.txt'' = Present ('' Be brief.  '' @ [CHR 0x0A])"
    by (simp add: plain_prompt_file_def)
  have h3: "CHR 0x0D \<notin> set ('' Be brief.  '' @ [CHR 0x0A])"
    by simp
  note t1 = prompt_is_default_or_file_text
    [of no_prompt_file "[]" "[]" "Inr [''search'']" echo_agent Map.empty "[]" "[]"]
  note t2 = prompt_is_default_or_file_text
    [of plain_prompt_file "'' Be brief.  '' @ [CHR 0x0A]" "'' Be brief.  '' @ [CHR 0x0A]"
        "Inr [''search'']" echo_agent Map.empty "[''quit'']" "[]"]
  have a: "load_prompt no_prompt_file = Inr DEFAULT_PROMPT"
    by (rule t1 [THEN conjunct1, THEN mp, OF h1])
  have n: "universal_newlines ('' Be brief.  '' @ [CHR 0x0A]) = '' Be brief.  '' @ [CHR 0x0A]"
    by (rule t2 [THEN conjunct2, THEN conjunct2, THEN conjunct1, THEN mp, OF h3])
  have b: "load_prompt plain_prompt_file = Inr ('' Be brief.  '' @ [CHR 0x0A])"
    using t2 [THEN conjunct2, THEN conjunct1, THEN mp, OF h2] unfolding n .
  have c: "program plain_prompt_file (Inr [''search'']) echo_agent Map.empty [''quit''] =
      main (Inr [''search'']) echo_agent Map.empty ('' Be brief.  '' @ [CHR 0x0A]) [''quit'']"
    by (rule t2 [THEN conjunct2, THEN conjunct2, THEN conjunct2, THEN conjunct1, THEN mp, OF b])
  show ?thesis
    by (intro conjI h1 h2 h3 a b c)
qed

section \<open>One turn at a time\<close>

text \<open>
  C7: in every state \<open>c\<close> that a run of the loop reaches, a line is read and the agent is
  invoked only in \<open>AWAITING_INPUT\<close>, where no stream is open; from \<open>AWAITING_INPUT\<close> the
  machine goes to \<open>STREAMING_RESPONSE\<close> on a line that is not the quit command and to
  \<open>TERMINATED\<close> on the quit command (a line whose lower-cased form is \<^verbatim>\<open>"quit"\<close>); it
  comes back to \<open>AWAITING_INPUT\<close> only from \<open>STREAMING_RESPONSE\<close> with the stream exhausted;
  \<open>TERMINATED\<close> is final. The machine reaches the result of \<^verbatim>\<open>invoke_graph\<close>. The end
  of input and an exception while streaming leave the machine in \<open>RAISED\<close>.
\<close>

theorem session_loop_is_sequential:
  assumes "c = run graph g0 lines n"
  shows "(phase c = AWAITING_INPUT \<longrightarrow> pending c = Exhausted) \<and>
         (unread (step graph c) \<noteq> unread c \<longrightarrow> phase c = AWAITING_INPUT \<and> pending c = Exhausted) \<and>
         (astream_calls (sess (step graph c)) \<noteq> astream_calls (sess c) \<longrightarrow>
            phase c = AWAITING_INPUT \<and> pending c = Exhausted) \<and>
         (phase c = AWAITING_INPUT \<longrightarrow>
            phase (step graph c) =
              (case unread c of
                 [] \<Rightarrow> RAISED EOFError
               | l # rest \<Rightarrow> if lower l = ''quit'' then TERMINATED else STREAMING_RESPONSE)) \<and>
         (phase c = STREAMING_RESPONSE \<longrightarrow>
            (phase (step graph c) = AWAITING_INPUT \<longleftrightarrow> pending c = Exhausted) \<and>
            phase (step graph c) \<noteq> TERMINATED) \<and>
         (phase (step graph c) = AWAITING_INPUT \<longrightarrow>
            phase c = STREAMING_RESPONSE \<and> pending c = Exhausted) \<and>
         (phase c = TERMINATED \<longrightarrow> step graph c = c) \<and>
         (\<exists>k. phase (run graph g0 lines k) = final_phase (fst (invoke_graph graph g0 lines)) \<and>
              sess (run graph g0 lines k) = fst (snd (invoke_graph graph g0 lines)) \<and>
              unread (run graph g0 lines k) = snd (snd (invoke_graph graph g0 lines)))"
proof -
  have inv: "phase c = AWAITING_INPUT \<Longrightarrow> pending c = Exhausted"
    unfolding assms by (rule run_AWAITING_pending)
  show ?thesis
  proof (intro conjI impI)
    show "\<exists>k. phase (run graph g0 lines k) = final_phase (fst (invoke_graph graph g0 lines)) \<and>
              sess (run graph g0 lines k) = fst (snd (invoke_graph graph g0 lines)) \<and>
              unread (run graph g0 lines k) = snd (snd (invoke_graph graph g0 lines))"
      by (rule run_reaches_result)
  qed (use inv step_reads step_invokes step_from_AWAITING step_from_STREAMING step_to_AWAITING
         step_TERMINATED in \<open>blast+\<close>)
qed

theorem session_loop_is_sequential_witness:
  "phase (run echo_graph 0 [''Hello'', ''quit''] (Suc 0)) = STREAMING_RESPONSE \<and>
   pending (run echo_graph 0 [''Hello'', ''quit''] (Suc 0)) \<noteq> Exhausted \<and>
   phase (step echo_graph (run echo_graph 0 [''Hello'', ''quit''] (Suc 0))) \<noteq> AWAITING_INPUT \<and>
   phase (run echo_graph 0 [''Hello'', ''quit''] (Suc (Suc (Suc (Suc 0))))) = AWAITING_INPUT \<and>
   pending (run echo_graph 0 [''Hello'', ''quit''] (Suc (Suc (Suc (Suc 0))))) = Exhausted \<and>
   unread (run echo_graph 0 [''Hello'', ''quit''] (Suc (Suc (Suc (Suc 0))))) = [''quit''] \<and>
   phase (step echo_graph (run echo_graph 0 [''Hello'', ''quit''] (Suc (Suc (Suc (Suc 0)))))) = TERMINATED"
proof -
  have l: "lower ''Hello'' \<noteq> ''quit''" "lower ''quit'' = ''quit''"
    by (simp_all add: lower_def lower_char_def)
  have r1: "run echo_graph 0 [''Hello'', ''quit''] (Suc 0) =
      \<lparr>phase = STREAMING_RESPONSE,
       sess = \<lparr>messages = [\<lparr>role = ''user'', content = ''Hello''\<rparr>], stdout = [Prompt ''User: ''],
               memory = 1, astream_calls = [[\<lparr>role = ''user'', content = ''Hello''\<rparr>]]\<rparr>,
       pending = Event \<lparr>event_messages = [''hello'', ''Hello'']\<rparr>
                   (Event \<lparr>event_messages = [''hello'', ''Hello'', ''ok'']\<rparr> Exhausted),
       unread = [''quit'']\<rparr>"
    by (simp add: run_Suc run_0 initial_def step_def l Let_def echo_graph_def)
  have r4: "run echo_graph 0 [''Hello'', ''quit''] (Suc (Suc (Suc (Suc 0)))) =
      \<lparr>phase = AWAITING_INPUT,
       sess = \<lparr>messages = [\<lparr>role = ''user'', content = ''Hello''\<rparr>],
               stdout = [Prompt ''User: '', PrettyPrint ''Hello'', PrettyPrint ''ok''],
               memory = 1, astream_calls = [[\<lparr>role = ''user'', content = ''Hello''\<rparr>]]\<rparr>,
       pending = Exhausted,
       unread = [''quit'']\<rparr>"
    unfolding run_Suc [of _ _ _ "Suc _"] r1
    by (simp add: step_def index_last_def)
  note t1 = session_loop_is_sequential
    [OF refl, of echo_graph 0 "[''Hello'', ''quit'']" "Suc 0"]
  note t4 = session_loop_is_sequential
    [OF refl, of echo_graph 0 "[''Hello'', ''quit'']" "Suc (Suc (Suc (Suc 0)))"]
  have p1: "phase (run echo_graph 0 [''Hello'', ''quit''] (Suc 0)) = STREAMING_RESPONSE"
    by (simp add: r1)
  have q1: "pending (run echo_graph 0 [''Hello'', ''quit''] (Suc 0)) \<noteq> Exhausted"
    by (simp add: r1)
  have p4: "phase (run echo_graph 0 [''Hello'', ''quit''] (Suc (Suc (Suc (Suc 0))))) = AWAITING_INPUT"
    by (simp add: r4)
  have u4: "unread (run echo_graph 0 [''Hello'', ''quit''] (Suc (Suc (Suc (Suc 0))))) = [''quit'']"
    by (simp add: r4)
  have a: "phase (step echo_graph (run echo_graph 0 [''Hello'', ''quit''] (Suc 0))) \<noteq> AWAITING_INPUT"
    using t1 p1 q1 by blast
  have b: "pending (run echo_graph 0 [''Hello'', ''quit''] (Suc (Suc (Suc (Suc 0))))) = Exhausted"
    using t4 p4 by blast
  have c: "phase (step echo_graph (run echo_graph 0 [''Hello'', ''quit''] (Suc (Suc (Suc (Suc 0)))))) =
             (case unread (run echo_graph 0 [''Hello'', ''quit''] (Suc (Suc (Suc (Suc 0))))) of
                [] \<Rightarrow> RAISED EOFError
              | l # rest \<Rightarrow> if lower l = ''quit'' then TERMINATED else STREAMING_RESPONSE)"
    using t4 p4 by blast
  have d: "phase (step echo_graph (run echo_graph 0 [''Hello'', ''quit''] (Suc (Suc (Suc (Suc 0)))))) = TERMINATED"
    unfolding c u4 by (simp add: l)
  show ?thesis
    by (intro conjI p1 q1 a p4 b u4 d)
qed

section \<open>The model settings\<close>

text \<open>
  C8: the model is configured from the environment variables \<^verbatim>\<open>LLM_API_MODEL\<close>,
  \<^verbatim>\<open>LLM_API_URL\<close> and \<^verbatim>\<open>LLM_API_KEY\<close>. Each one that is unset is replaced by its
  hardcoded value, \<^verbatim>\<open>http://localhost:8080\<close> for the base URL; each one that is set is
  used as it is. These settings are the model of the agent.
\<close>

theorem model_settings_fall_back:
  "(env ''LLM_API_MODEL'' = None \<longrightarrow>
      model (init_chat_model_args env) = ''anthropic:claude-4-sonnet-latest'') \<and>
   (env ''LLM_API_URL'' = None \<longrightarrow>
      base_url (init_chat_model_args env) = ''http://localhost:8080'') \<and>
   (env ''LLM_API_KEY'' = None \<longrightarrow>
      api_key (init_chat_model_args env) = ''test'') \<and>
   (env ''LLM_API_MODEL'' = Some m \<longrightarrow> model (init_chat_model_args env) = m) \<and>
   (env ''LLM_API_URL'' = Some u \<longrightarrow> base_url (init_chat_model_args env) = u) \<and>
   (env ''LLM_API_KEY'' = Some k \<longrightarrow> api_key (init_chat_model_args env) = k) \<and>
   agent_model (create_chatbot id env PROMPT tools) = init_chat_model_args env"
  by (simp add: init_chat_model_args_def getenv_def create_chatbot_def)

theorem model_settings_fall_back_witness:
  "(Map.empty :: string \<rightharpoonup> string) ''LLM_API_MODEL'' = None \<and>
   (Map.empty :: string \<rightharpoonup> string) ''LLM_API_URL'' = None \<and>
   (Map.empty :: string \<rightharpoonup> string) ''LLM_API_KEY'' = None \<and>
   model (init_chat_model_args Map.empty) = ''anthropic:claude-4-sonnet-latest'' \<and>
   base_url (init_chat_model_args Map.empty) = ''http://localhost:8080'' \<and>
   api_key (init_chat_model_args Map.empty) = ''test'' \<and>
   [''LLM_API_URL'' \<mapsto> ''http://example:9000''] ''LLM_API_URL'' = Some ''http://example:9000'' \<and>
   base_url (init_chat_model_args [''LLM_API_URL'' \<mapsto> ''http://example:9000'']) =
     ''http://example:9000''"
proof -
  have h1: "(Map.empty :: string \<rightharpoonup> string) ''LLM_API_MODEL'' = None"
    and h2: "(Map.empty :: string \<rightharpoonup> string) ''LLM_API_URL'' = None"
    and h3: "(Map.empty :: string \<rightharpoonup> string) ''LLM_API_KEY'' = None"
    by simp_all
  have h4: "[''LLM_API_URL'' \<mapsto> ''http://example:9000''] ''LLM_API_URL'' = Some ''http://example:9000''"
    by simp
  note t1 = model_settings_fall_back [of Map.empty "[]" "[]" "[]" "[]" "[] :: string list"]
  note t2 = model_settings_fall_back
    [of "[''LLM_API_URL'' \<mapsto> ''http://example:9000'']" "[]" "''http://example:9000''" "[]" "[]"
        "[] :: string list"]
  have a: "model (init_chat_model_args Map.empty) = ''anthropic:claude-4-sonnet-latest''"
    by (rule t1 [THEN conjunct1, THEN mp, OF h1])
  have b: "base_url (init_chat_model_args Map.empty) = ''http://localhost:8080''"
    by (rule t1 [THEN conjunct2, THEN conjunct1, THEN mp, OF h2])
  have c: "api_key (init_chat_model_args Map.empty) = ''test''"
    by (rule t1 [THEN conjunct2, THEN conjunct2, THEN conjunct1, THEN mp, OF h3])
  have d: "base_url (init_chat_model_args [''LLM_API_URL'' \<mapsto> ''http://example:9000'']) =
     ''http://example:9000''"
    by (rule t2 [THEN conjunct2, THEN conjunct2, THEN conjunct2, THEN conjunct2, THEN conjunct1,
                 THEN mp, OF h4])
  show ?thesis
    by (intro conjI h1 h2 h3 a b c h4 d)
qed

section \<open>A prompt file that cannot be read\<close>

text \<open>
  C9: loading the prompt raises exactly when opening or reading the file raises something
  other than \<^verbatim>\<open>FileNotFoundError\<close>; then the module is left before \<^verbatim>\<open>main\<close> starts,
  with nothing written and nothing read. The default prompt is used only when the file is
  not found (or holds the default text itself).
\<close>

theorem prompt_error_other_than_absence_propagates:
  "(load_prompt fs = Inl err \<longleftrightarrow>
      open_read (fs ''prompt.txt'') = Inl err \<and> err \<noteq> FileNotFoundError) \<and>
   (fs ''prompt.txt'' = Unreadable err \<and> err \<noteq> FileNotFoundError \<longrightarrow>
      load_prompt fs = Inl err \<and>
      program fs connect create_react_agent env lines = (Some (PromptFileError err), [], lines)) \<and>
   (load_prompt fs = Inr DEFAULT_PROMPT \<longrightarrow>
      open_read (fs ''prompt.txt'') = Inl FileNotFoundError \<or>
      open_read (fs ''prompt.txt'') = Inr DEFAULT_PROMPT)"
proof (intro conjI impI)
  show "load_prompt fs = Inl err \<longleftrightarrow>
      open_read (fs ''prompt.txt'') = Inl err \<and> err \<noteq> FileNotFoundError"
    by (rule load_prompt_Inl)
next
  assume a: "fs ''prompt.txt'' = Unreadable err \<and> err \<noteq> FileNotFoundError"
  then show l: "load_prompt fs = Inl err"
    by (simp add: load_prompt_Inl open_read_def)
  then show "program fs connect create_react_agent env lines = (Some (PromptFileError err), [], lines)"
    by (simp add: program_def)
next
  assume "load_prompt fs = Inr DEFAULT_PROMPT"
  then show "open_read (fs ''prompt.txt'') = Inl FileNotFoundError \<or>
      open_read (fs ''prompt.txt'') = Inr DEFAULT_PROMPT"
    by (auto simp add: load_prompt_def split: sum.splits if_splits)
qed

theorem prompt_error_other_than_absence_propagates_witness:
  "locked_prompt_file ''prompt.txt'' = Unreadable PermissionError \<and>
   PermissionError \<noteq> FileNotFoundError \<and>
   load_prompt locked_prompt_file = Inl PermissionError \<and>
   program locked_prompt_file (Inr [''search'']) echo_agent Map.empty [''Hello'', ''quit''] =
     (Some (PromptFileError PermissionError), [], [''Hello'', ''quit''])"
proof -
  have h1: "locked_prompt_file ''prompt.txt'' = Unreadable PermissionError"
    by (simp add: locked_prompt_file_def)
  have h2: "PermissionError \<noteq> FileNotFoundError"
    by simp
  note t = prompt_error_other_than_absence_propagates
    [of locked_prompt_file PermissionError "Inr [''search'']" echo_agent Map.empty "[''Hello'', ''quit'']"]
  have a: "load_prompt locked_prompt_file = Inl PermissionError"
    using t h1 h2 by blast
  have b: "program locked_prompt_file (Inr [''search'']) echo_agent Map.empty [''Hello'', ''quit''] =
     (Some (PromptFileError PermissionError), [], [''Hello'', ''quit''])"
    using t h1 h2 by blast
  show ?thesis
    by (intro conjI h1 h2 a b)
qed

section \<open>A snapshot without messages\<close>

text \<open>
  C10: \<^verbatim>\<open>event["messages"][-1]\<close> has no guard. Consuming a stream raises
  \<^verbatim>\<open>IndexError\<close> exactly when one of its snapshots has no message; at such a snapshot
  nothing is written; a turn whose stream has one ends the loop with \<^verbatim>\<open>IndexError\<close>.
  When every snapshot of every stream of the agent has a message, the loop never ends with
  \<^verbatim>\<open>IndexError\<close>.
\<close>

theorem empty_snapshot_raises_IndexError:
  "(fst (async_for str out) = Some IndexError \<longleftrightarrow>
      \<not> list_all (\<lambda>ev. event_messages ev \<noteq> []) (snapshots str)) \<and>
   async_for (Event \<lparr>event_messages = []\<rparr> rest) out = (Some IndexError, out) \<and>
   (lower user_input \<noteq> ''quit'' \<and>
    \<not> list_all (\<lambda>ev. event_messages ev \<noteq> [])
        (snapshots (fst (graph (memory s)
           (messages s @ [\<lparr>role = ''user'', content = user_input\<rparr>]) thread_id))) \<longrightarrow>
    fst (while_loop graph s (user_input # lines)) = Some IndexError) \<and>
   ((\<forall>g h t. list_all (\<lambda>ev. event_messages ev \<noteq> []) (snapshots (fst (graph g h t)))) \<longrightarrow>
    fst (while_loop graph s lines) \<noteq> Some IndexError)"
proof (intro conjI impI)
  show "fst (async_for str out) = Some IndexError \<longleftrightarrow>
          \<not> list_all (\<lambda>ev. event_messages ev \<noteq> []) (snapshots str)"
    by (simp add: async_for_IndexError list_all_iff)
next
  show "async_for (Event \<lparr>event_messages = []\<rparr> rest) out = (Some IndexError, out)"
    by (simp add: index_last_def)
next
  assume a: "lower user_input \<noteq> ''quit'' \<and>
    \<not> list_all (\<lambda>ev. event_messages ev \<noteq> [])
        (snapshots (fst (graph (memory s)
           (messages s @ [\<lparr>role = ''user'', content = user_input\<rparr>]) thread_id)))"
  let ?s1 = "s\<lparr>stdout := stdout s @ [Prompt ''User: '']\<rparr>"
  have "fst (turn graph ?s1 user_input) = Some IndexError"
    using a by (simp add: turn_fst async_for_IndexError list_all_iff)
  then show "fst (while_loop graph s (user_input # lines)) = Some IndexError"
    using a by (simp add: while_loop_non_quit del: while_loop.simps)
next
  assume "\<forall>g h t. list_all (\<lambda>ev. event_messages ev \<noteq> []) (snapshots (fst (graph g h t)))"
  then have "\<And>g h t ev. ev \<in> set (snapshots (fst (graph g h t))) \<Longrightarrow> event_messages ev \<noteq> []"
    by (simp add: list_all_iff)
  then show "fst (while_loop graph s lines) \<noteq> Some IndexError"
    by (rule while_loop_no_IndexError)
qed

theorem empty_snapshot_raises_IndexError_witness:
  "(lower ''Hello'' \<noteq> ''quit'' \<and>
    \<not> list_all (\<lambda>ev. event_messages ev \<noteq> [])
        (snapshots (fst (empty_graph 0 [\<lparr>role = ''user'', content = ''Hello''\<rparr>] thread_id))) \<and>
    while_loop empty_graph \<lparr>messages = [], stdout = [], memory = 0, astream_calls = []\<rparr>
      [''Hello'', ''quit''] =
      (Some IndexError,
       \<lparr>messages = [\<lparr>role = ''user'', content = ''Hello''\<rparr>],
        stdout = [Prompt ''User: '', PrettyPrint ''Hello''],
        memory = 1,
        astream_calls = [[\<lparr>role = ''user'', content = ''Hello''\<rparr>]]\<rparr>,
       [''quit''])) \<and>
   ((\<forall>g h t. list_all (\<lambda>ev. event_messages ev \<noteq> []) (snapshots (fst (echo_graph g h t)))) \<and>
    fst (while_loop echo_graph \<lparr>messages = [], stdout = [], memory = 0, astream_calls = []\<rparr>
           [''Hello'', ''quit'']) \<noteq> Some IndexError)"
proof -
  let ?s0 = "\<lparr>messages = [], stdout = [], memory = 0 :: nat, astream_calls = []\<rparr> :: (string, nat) session"
  have h1: "lower ''Hello'' \<noteq> ''quit''"
    by (simp add: lower_def lower_char_def)
  have h2: "\<not> list_all (\<lambda>ev. event_messages ev \<noteq> [])
        (snapshots (fst (empty_graph 0 [\<lparr>role = ''user'', content = ''Hello''\<rparr>] thread_id)))"
    by (simp add: empty_graph_def)
  have h3: "\<forall>g h t. list_all (\<lambda>ev. event_messages ev \<noteq> []) (snapshots (fst (echo_graph g h t)))"
    by (simp add: echo_graph_def)
  note t1 = empty_snapshot_raises_IndexError
    [of Exhausted "[]" Exhausted "''Hello''" empty_graph ?s0 "[''quit'']"]
  note t2 = empty_snapshot_raises_IndexError
    [of Exhausted "[]" Exhausted "''Hello''" echo_graph ?s0 "[''Hello'', ''quit'']"]
  have "fst (while_loop empty_graph ?s0 [''Hello'', ''quit'']) = Some IndexError"
    using t1 [THEN conjunct2, THEN conjunct2, THEN conjunct1] h1 h2
    by (simp del: while_loop.simps)
  then have a: "while_loop empty_graph ?s0 [''Hello'', ''quit''] =
      (Some IndexError,
       \<lparr>messages = [\<lparr>role = ''user'', content = ''Hello''\<rparr>],
        stdout = [Prompt ''User: '', PrettyPrint ''Hello''],
        memory = 1,
        astream_calls = [[\<lparr>role = ''user'', content = ''Hello''\<rparr>]]\<rparr>,
       [''quit''])"
    by (simp add: h1 turn_def Let_def empty_graph_def index_last_def)
  have b: "fst (while_loop echo_graph ?s0 [''Hello'', ''quit'']) \<noteq> Some IndexError"
    by (rule t2 [THEN conjunct2, THEN conjunct2, THEN conjunct2, THEN mp, OF h3])
  show ?thesis
    by (intro conjI h1 h2 h3 a b)
qed

end
